theory Spec2Isabelle
  imports Main
begin

section \<open>Errors\<close>

text \<open>
  The Python exceptions that the modelled code can raise. A function of the source that can
  raise returns \<open>exn + 'a\<close>, with \<open>Inl\<close> for the raised exception. An exception of a
  platform or HTTP client is \<open>ClientIOError\<close> when its class derives from \<^verbatim>\<open>IOError\<close>
  (a network failure) and \<open>ClientError\<close> otherwise.
\<close>

datatype exn =
    AttributeError
  | TypeError
  | KeyError
  | FileNotFoundError
  | ClientIOError
  | ClientError

section \<open>Text: the URL pattern of the decision engine\<close>

text \<open>
  \<^verbatim>\<open>\s\<close> of Python's \<^verbatim>\<open>re\<close> on \<^verbatim>\<open>str\<close>: the characters for which
  \<^verbatim>\<open>str.isspace\<close> holds. Characters are the 256 code points of \<^typ>\<open>char\<close>.
\<close>

definition is_space :: "char \<Rightarrow> bool" where
  "is_space c =
     (let n = (of_char c :: nat)
      in (9 \<le> n \<and> n \<le> 13) \<or> (28 \<le> n \<and> n \<le> 32) \<or> n = 133 \<or> n = 160)"

fun strip_prefix :: "string \<Rightarrow> string \<Rightarrow> string option" where
  "strip_prefix [] s = Some s"
| "strip_prefix (p # ps) [] = None"
| "strip_prefix (p # ps) (c # cs) = (if p = c then strip_prefix ps cs else None)"

text \<open>\<^verbatim>\<open>[^\s]+\<close> after the prefix \<open>p\<close> already matched: the longest non-empty run.\<close>

definition nonspace_run :: "string \<Rightarrow> string \<Rightarrow> (string \<times> string) option" where
  "nonspace_run p r =
     (if takeWhile (\<lambda>c. \<not> is_space c) r = [] then None
      else Some (p @ takeWhile (\<lambda>c. \<not> is_space c) r, dropWhile (\<lambda>c. \<not> is_space c) r))"

definition url_tail :: "string \<Rightarrow> string \<Rightarrow> (string \<times> string) option" where
  "url_tail p r =
     (case strip_prefix ''://'' r of
        None \<Rightarrow> None
      | Some r' \<Rightarrow> nonspace_run (p @ ''://'') r')"

text \<open>
  The pattern \<^verbatim>\<open>(?P<url>https?://[^\s]+)\<close> anchored at the head of the string: the
  matched text and the rest. \<^verbatim>\<open>s?\<close> is greedy, the alternative without it is tried second.
\<close>

definition url_match :: "string \<Rightarrow> (string \<times> string) option" where
  "url_match s =
     (case strip_prefix ''http'' s of
        None \<Rightarrow> None
      | Some r \<Rightarrow>
          (case (case strip_prefix ''s'' r of
                   None \<Rightarrow> None
                 | Some r' \<Rightarrow> url_tail ''https'' r') of
             Some m \<Rightarrow> Some m
           | None \<Rightarrow> url_tail ''http'' r))"

text \<open>\<^verbatim>\<open>re.search(pattern, text).group("url")\<close>: the leftmost match, \<open>None\<close> without one.\<close>

fun re_search_url :: "string \<Rightarrow> string option" where
  "re_search_url [] = None"
| "re_search_url (c # cs) =
     (case url_match (c # cs) of
        Some (m, r) \<Rightarrow> Some m
      | None \<Rightarrow> re_search_url cs)"

lemma strip_prefix_length: "strip_prefix p s = Some r \<Longrightarrow> length r \<le> length s"
  by (induction p s rule: strip_prefix.induct) (auto split: if_splits)

lemma nonspace_run_length: "nonspace_run p s = Some (m, r) \<Longrightarrow> length r < length s"
proof -
  assume a: "nonspace_run p s = Some (m, r)"
  then have ne: "takeWhile (\<lambda>c. \<not> is_space c) s \<noteq> []"
    and r: "r = dropWhile (\<lambda>c. \<not> is_space c) s"
    by (auto simp: nonspace_run_def split: if_splits)
  have "length (takeWhile (\<lambda>c. \<not> is_space c) s) + length r = length s"
    unfolding r by (metis length_append takeWhile_dropWhile_id)
  with ne show ?thesis by (cases "takeWhile (\<lambda>c. \<not> is_space c) s") auto
qed

lemma url_tail_length: "url_tail p s = Some (m, r) \<Longrightarrow> length r < length s"
  by (auto simp: url_tail_def split: option.splits
           dest!: strip_prefix_length nonspace_run_length)

lemma url_match_length: "url_match s = Some (m, r) \<Longrightarrow> length r < length s"
  by (auto simp: url_match_def split: option.splits
           dest!: strip_prefix_length url_tail_length)

text \<open>\<^verbatim>\<open>re.sub(pattern, '', text)\<close>: every non-overlapping match removed, left to right.\<close>

function re_sub_url :: "string \<Rightarrow> string" where
  "re_sub_url [] = []"
| "re_sub_url (c # cs) =
     (case url_match (c # cs) of
        Some (m, r) \<Rightarrow> re_sub_url r
      | None \<Rightarrow> c # re_sub_url cs)"
  by pat_completeness auto
termination
  by (relation "measure length") (auto dest: url_match_length)

text \<open>
  Lines 565 to 578 of \<^verbatim>\<open>create_tweet_from_toot\<close>: the first URL is extracted, every URL is
  cut out of the text, the budget is chosen, the text is sliced and the parts are joined
  with the permalink. \<^verbatim>\<open>re.search\<close> returns \<^verbatim>\<open>None\<close> without a match and
  \<^verbatim>\<open>.group\<close> on it raises \<^verbatim>\<open>AttributeError\<close>.
\<close>

definition assemble_text :: "string \<Rightarrow> string \<Rightarrow> exn + string" where
  "assemble_text toot_text permalink =
     (case re_search_url toot_text of
        None \<Rightarrow> Inl AttributeError
      | Some toot_links \<Rightarrow>
          (let toot_reduced = re_sub_url toot_text;
               string_len = (if length toot_links > 0 then 253 - 23 else (253::nat));
               toot_sliced = (if length toot_text > string_len
                              then take string_len toot_reduced @ ''...''
                              else toot_reduced)
           in Inr (toot_sliced @ '' '' @ toot_links @ '' '' @ permalink)))"

section \<open>Data model\<close>

text \<open>
  A twoot is the dict \<^verbatim>\<open>{"toot_id": ..., "tweet_id": ...}\<close>. The pickled data file holds the
  two account dicts (represented by their \<^verbatim>\<open>"id"\<close>), the two markers and the stored twoots;
  a key that is missing from the dict is \<open>None\<close>.
\<close>

record twoot =
  toot_id :: int
  tweet_id :: int

record pdata =
  mastodon_account :: "int option"
  twitter_account :: "int option"
  last_toot :: "int option"
  last_tweet :: "int option"
  data_twoots :: "twoot list"

record media =
  media_type :: string
  media_url :: string

text \<open>
  A status of the source platform, with the keys that the code reads. \<open>reblog\<close> is the boosted
  status, represented by its \<^verbatim>\<open>"id"\<close>.
\<close>

record toot =
  id' :: int
  in_reply_to_account_id :: "int option"
  in_reply_to_id :: "int option"
  reblog :: "int option"
  media_attachments :: "media list"
  content :: string
  url :: string

record response =
  status_code :: int
  content_type :: "string option"
  body :: string

text \<open>The calls that change the destination platform, in the order they are made.\<close>

datatype action =
    Upload string
  | UploadInit nat string
  | UploadAppend string string
  | UploadFinalize string
  | StatusUpdate string "int option" "string list"
  | Retweet "int option"

text \<open>
  The external collaborators: the two platform clients, the HTTP client and the text
  rendering of \<^verbatim>\<open>__pre_process\<close> (the HTML converter and the link expansion). Each answer
  may depend on the calls made so far; \<open>Inl\<close> is an exception raised by the client.
\<close>

record env =
  ms_verify_credentials :: "exn + int"
  tw_verify_credentials :: "exn + int"
  account_statuses :: "action list \<Rightarrow> int \<Rightarrow> int option \<Rightarrow> exn + toot list"
  pre_process :: "action list \<Rightarrow> string \<Rightarrow> string"
  requests_get :: "action list \<Rightarrow> string \<Rightarrow> exn + response"
  media_upload :: "action list \<Rightarrow> string \<Rightarrow> exn + string"
  media_upload_init :: "action list \<Rightarrow> nat \<Rightarrow> string \<Rightarrow> exn + string"
  media_upload_append :: "action list \<Rightarrow> string \<Rightarrow> string \<Rightarrow> exn + unit"
  media_upload_finalize :: "action list \<Rightarrow> string \<Rightarrow> exn + string"
  statuses_update :: "action list \<Rightarrow> string \<Rightarrow> int option \<Rightarrow> string list \<Rightarrow> exn + int"
  statuses_retweet :: "action list \<Rightarrow> int option \<Rightarrow> exn + int"

text \<open>
  The \<^verbatim>\<open>Twoot\<close> object together with the data file it works on: \<open>data_file\<close> is the content
  of the file at that path (\<open>None\<close> when there is no file) and \<open>calls\<close> the destination calls
  made so far.
\<close>

record twoot_state =
  setup_flag :: bool
  max_twoots :: int
  twoots :: "twoot list"
  data :: pdata
  data_file :: "pdata option"
  calls :: "action list"

definition empty_data :: pdata where
  "empty_data =
     \<lparr>mastodon_account = None, twitter_account = None,
      last_toot = None, last_tweet = None, data_twoots = []\<rparr>"

text \<open>Truth value of an id read with \<^verbatim>\<open>.get(key, False)\<close> or of an optional id.\<close>

definition truthy :: "int option \<Rightarrow> bool" where
  "truthy x = (case x of None \<Rightarrow> False | Some n \<Rightarrow> n \<noteq> 0)"

section \<open>Construction\<close>

text \<open>
  \<^verbatim>\<open>Twoot.__init__(profile, setup)\<close>. The parameter \<open>setup_param\<close> is not used:
  the source assigns \<^verbatim>\<open>self.setup = False\<close>. The configuration is represented by its
  \<^verbatim>\<open>"max_twoots"\<close>; a missing configuration file (\<open>None\<close>) raises when it is opened. A failed
  account verification is raised again. The data file is written at the end. A file holds
  a well-formed dict: a file that cannot be unpickled is outside the model, as are the
  log and the lock file.
\<close>

definition init :: "env \<Rightarrow> bool \<Rightarrow> int option \<Rightarrow> pdata option \<Rightarrow> exn + twoot_state" where
  "init e setup_param config file =
     (case config of
        None \<Rightarrow> Inl FileNotFoundError
      | Some mx \<Rightarrow>
          (let d0 = (case file of Some d \<Rightarrow> d | None \<Rightarrow> empty_data) in
           case (if mastodon_account d0 = None
                 then (case ms_verify_credentials e of
                         Inl x \<Rightarrow> Inl x
                       | Inr a \<Rightarrow> Inr (d0\<lparr>mastodon_account := Some a\<rparr>))
                 else Inr d0) of
             Inl x \<Rightarrow> Inl x
           | Inr d1 \<Rightarrow>
               (case (if twitter_account d1 = None
                      then (case tw_verify_credentials e of
                              Inl x \<Rightarrow> Inl x
                            | Inr a \<Rightarrow> Inr (d1\<lparr>twitter_account := Some a\<rparr>))
                      else Inr d1) of
                  Inl x \<Rightarrow> Inl x
                | Inr d2 \<Rightarrow>
                    Inr \<lparr>setup_flag = False, max_twoots = mx, twoots = [], data = d2,
                         data_file = Some d2, calls = []\<rparr>)))"

section \<open>Marker store and fetcher\<close>

datatype marker = LastToot | LastTweet

text \<open>\<^verbatim>\<open>__update_last_id\<close>: read the latest file (or the default), set the key, write.\<close>

definition update_last_id :: "marker \<Rightarrow> int \<Rightarrow> twoot_state \<Rightarrow> twoot_state" where
  "update_last_id key v st =
     (let d = (case data_file st of Some d \<Rightarrow> d | None \<Rightarrow> empty_data)
      in st\<lparr>data_file :=
              Some (case key of
                      LastToot \<Rightarrow> d\<lparr>last_toot := Some v\<rparr>
                    | LastTweet \<Rightarrow> d\<lparr>last_tweet := Some v\<rparr>)\<rparr>)"

text \<open>
  \<^verbatim>\<open>get_new_toots\<close>. Reading the account id happens before the \<^verbatim>\<open>try\<close>; an exception of the
  client is caught and the result is the empty list.
\<close>

definition get_new_toots :: "env \<Rightarrow> bool \<Rightarrow> bool \<Rightarrow> twoot_state \<Rightarrow> (exn + toot list) \<times> twoot_state" where
  "get_new_toots e dry_run update st =
     (case mastodon_account (data st) of
        None \<Rightarrow> (Inl KeyError, st)
      | Some my_id \<Rightarrow>
          (let last_id = last_toot (data st) in
           case (if truthy last_id
                 then account_statuses e (calls st) my_id last_id
                 else account_statuses e (calls st) my_id None) of
             Inl x \<Rightarrow> (Inr [], st)
           | Inr r \<Rightarrow>
               (let res = (if truthy last_id then r else []) in
                case r of
                  [] \<Rightarrow> (Inr res, st)
                | t # _ \<Rightarrow>
                    if \<not> dry_run \<or> update
                    then (Inr res, update_last_id LastToot (id' t) st)
                    else (Inr res, st))))"

section \<open>Mapping history\<close>

text \<open>\<^verbatim>\<open>__store_twoot\<close>: the newest twoot goes to the head of the in-memory list.\<close>

definition store_twoot :: "int \<Rightarrow> int \<Rightarrow> twoot_state \<Rightarrow> twoot_state" where
  "store_twoot toot tweet st =
     st\<lparr>twoots := \<lparr>toot_id = toot, tweet_id = tweet\<rparr> # twoots st\<rparr>"

text \<open>The list \<^verbatim>\<open>self.twoots + self.data["twoots"]\<close> that both lookups walk through.\<close>

definition history :: "twoot_state \<Rightarrow> twoot list" where
  "history st = twoots st @ data_twoots (data st)"

definition synced_toots :: "twoot_state \<Rightarrow> int list" where
  "synced_toots st = map toot_id (history st)"

text \<open>\<^verbatim>\<open>__find_paired_tweet\<close>: the tweet of the first twoot with that toot id.\<close>

definition find_paired_tweet :: "int \<Rightarrow> twoot_state \<Rightarrow> int option" where
  "find_paired_tweet i st = map_option tweet_id (find (\<lambda>t. toot_id t = i) (history st))"

section \<open>Media relay\<close>

text \<open>\<^verbatim>\<open>sub in s\<close> on strings.\<close>

fun starts_with :: "string \<Rightarrow> string \<Rightarrow> bool" where
  "starts_with [] s = True"
| "starts_with (p # ps) [] = False"
| "starts_with (p # ps) (c # cs) = (p = c \<and> starts_with ps cs)"

fun str_in :: "string \<Rightarrow> string \<Rightarrow> bool" where
  "str_in sub [] = (sub = [])"
| "str_in sub (c # cs) = (starts_with sub (c # cs) \<or> str_in sub cs)"

text \<open>
  \<^verbatim>\<open>__download_image\<close> and \<^verbatim>\<open>__download_video\<close> differ in the word looked for in the content
  type. The result \<open>None\<close> is the source's \<^verbatim>\<open>return None\<close>; an exception of the HTTP client and
  a missing header are raised.
\<close>

definition download :: "string \<Rightarrow> env \<Rightarrow> string \<Rightarrow> twoot_state \<Rightarrow> exn + (string \<times> string) option" where
  "download kind e u st =
     (case requests_get e (calls st) u of
        Inl x \<Rightarrow> Inl x
      | Inr r \<Rightarrow>
          if status_code r \<noteq> 200 then Inr None
          else (case content_type r of
                  None \<Rightarrow> Inl KeyError
                | Some c_type \<Rightarrow>
                    if \<not> str_in kind c_type then Inr None
                    else Inr (Some (body r, c_type))))"

definition download_image :: "env \<Rightarrow> string \<Rightarrow> twoot_state \<Rightarrow> exn + (string \<times> string) option" where
  "download_image = download ''image''"

definition download_video :: "env \<Rightarrow> string \<Rightarrow> twoot_state \<Rightarrow> exn + (string \<times> string) option" where
  "download_video = download ''video''"

definition call :: "action \<Rightarrow> twoot_state \<Rightarrow> twoot_state" where
  "call a st = st\<lparr>calls := calls st @ [a]\<rparr>"

text \<open>
  The three-step upload of a video inside the \<^verbatim>\<open>try\<close>: any exception ends it with \<open>None\<close>.
\<close>

definition upload_video :: "env \<Rightarrow> string \<Rightarrow> string \<Rightarrow> twoot_state \<Rightarrow> string option \<times> twoot_state" where
  "upload_video e video mime_type st =
     (let st1 = call (UploadInit (length video) mime_type) st in
      case media_upload_init e (calls st) (length video) mime_type of
        Inl x \<Rightarrow> (None, st1)
      | Inr media_id \<Rightarrow>
          (let st2 = call (UploadAppend media_id video) st1 in
           case media_upload_append e (calls st1) media_id video of
             Inl x \<Rightarrow> (None, st2)
           | Inr _ \<Rightarrow>
               (let st3 = call (UploadFinalize media_id) st2 in
                case media_upload_finalize e (calls st2) media_id of
                  Inl x \<Rightarrow> (None, st3)
                | Inr r \<Rightarrow> (Some r, st3))))"

text \<open>
  \<^verbatim>\<open>__post_media_to_twitter\<close>. The download result is unpacked into two names before the
  \<^verbatim>\<open>try\<close>: unpacking \<^verbatim>\<open>None\<close> raises \<^verbatim>\<open>TypeError\<close>. The result is the
  \<^verbatim>\<open>"media_id_string"\<close> of the upload response, \<open>None\<close> for the source's \<^verbatim>\<open>None\<close>.
\<close>

definition post_media_to_twitter :: "env \<Rightarrow> media \<Rightarrow> twoot_state \<Rightarrow> (exn + string option) \<times> twoot_state" where
  "post_media_to_twitter e m st =
     (if media_type m = ''image'' then
        (case download_image e (media_url m) st of
           Inl x \<Rightarrow> (Inl x, st)
         | Inr None \<Rightarrow> (Inl TypeError, st)
         | Inr (Some (img, mime_type)) \<Rightarrow>
             (case media_upload e (calls st) img of
                Inl x \<Rightarrow> (Inr None, call (Upload img) st)
              | Inr r \<Rightarrow> (Inr (Some r), call (Upload img) st)))
      else if media_type m = ''gifv'' then
        (case download_video e (media_url m) st of
           Inl x \<Rightarrow> (Inl x, st)
         | Inr None \<Rightarrow> (Inl TypeError, st)
         | Inr (Some (video, mime_type)) \<Rightarrow>
             (case upload_video e video mime_type st of
                (r, st') \<Rightarrow> (Inr r, st')))
      else (Inr None, st))"

text \<open>
  The comprehension \<^verbatim>\<open>[self.__post_media_to_twitter(m) for m in mastodon_media]\<close>: the
  attachments in order, stopping at the first exception.
\<close>

fun post_all_media :: "env \<Rightarrow> media list \<Rightarrow> twoot_state \<Rightarrow> (exn + string option list) \<times> twoot_state" where
  "post_all_media e [] st = (Inr [], st)"
| "post_all_media e (m # ms) st =
     (case post_media_to_twitter e m st of
        (Inl x, st1) \<Rightarrow> (Inl x, st1)
      | (Inr r, st1) \<Rightarrow>
          (case post_all_media e ms st1 of
             (Inl x, st2) \<Rightarrow> (Inl x, st2)
           | (Inr rs, st2) \<Rightarrow> (Inr (r # rs), st2)))"

text \<open>\<^verbatim>\<open>[m["media_id_string"] for m in twitter_media if m is not None]\<close>\<close>

definition media_ids_of :: "string option list \<Rightarrow> string list" where
  "media_ids_of rs = concat (map (\<lambda>m. case m of None \<Rightarrow> [] | Some i \<Rightarrow> [i]) rs)"

section \<open>Destination calls\<close>

text \<open>\<^verbatim>\<open>__tweet\<close> and \<^verbatim>\<open>__retweet\<close>: an exception of the client becomes \<open>None\<close>.\<close>

definition tweet :: "env \<Rightarrow> string \<Rightarrow> int option \<Rightarrow> string list \<Rightarrow> twoot_state \<Rightarrow> int option \<times> twoot_state" where
  "tweet e text in_reply_to media_ids st =
     (case statuses_update e (calls st) text in_reply_to media_ids of
        Inl x \<Rightarrow> (None, call (StatusUpdate text in_reply_to media_ids) st)
      | Inr r \<Rightarrow> (Some r, call (StatusUpdate text in_reply_to media_ids) st))"

definition retweet :: "env \<Rightarrow> int option \<Rightarrow> twoot_state \<Rightarrow> int option \<times> twoot_state" where
  "retweet e target st =
     (case statuses_retweet e (calls st) target of
        Inl x \<Rightarrow> (None, call (Retweet target) st)
      | Inr r \<Rightarrow> (Some r, call (Retweet target) st))"

section \<open>Decision engine\<close>

text \<open>
  The last part of \<^verbatim>\<open>create_tweet_from_toot\<close>, from \<^verbatim>\<open>if not dry_run:\<close> on. The test
  \<^verbatim>\<open>in_reply_to_toot_id in synced_toots\<close> is false for \<^verbatim>\<open>None\<close>. After the twoot
  is stored the source calls \<^verbatim>\<open>self.create_toot_from_tweet(t, dry_run)\<close>; the class has no
  attribute of that name, so the attribute lookup raises \<^verbatim>\<open>AttributeError\<close>.
\<close>

definition post_tweet :: "env \<Rightarrow> toot \<Rightarrow> int list \<Rightarrow> int option \<Rightarrow> string \<Rightarrow> string list \<Rightarrow> twoot_state \<Rightarrow> (exn + unit) \<times> twoot_state" where
  "post_tweet e t synced in_reply_to_toot_id text media_ids st =
     (case (case in_reply_to_toot_id of
              None \<Rightarrow> tweet e text None media_ids st
            | Some parent \<Rightarrow>
                if parent \<in> set synced
                then tweet e text (find_paired_tweet parent st) media_ids st
                else tweet e text None media_ids st) of
        (r, st1) \<Rightarrow>
          (let st2 = (case r of
                        None \<Rightarrow> st1
                      | Some new_id \<Rightarrow> store_twoot (id' t) new_id st1)
           in (Inl AttributeError, st2)))"

text \<open>
  The plain and self-reply case of \<^verbatim>\<open>create_tweet_from_toot\<close>, from \<^verbatim>\<open># treat media\<close> on:
  the media are relayed (not in a dry run), the text is rendered and assembled, and the
  tweet is posted (not in a dry run).
\<close>

definition mirror_toot :: "env \<Rightarrow> toot \<Rightarrow> bool \<Rightarrow> int list \<Rightarrow> int option \<Rightarrow> twoot_state \<Rightarrow> (exn + unit) \<times> twoot_state" where
  "mirror_toot e t dry_run synced in_reply_to_toot_id st =
     (case (if dry_run then (Inr [], st)
            else (case post_all_media e (media_attachments t) st of
                    (Inl x, st1) \<Rightarrow> (Inl x, st1)
                  | (Inr twitter_media, st1) \<Rightarrow> (Inr (media_ids_of twitter_media), st1))) of
        (Inl x, st1) \<Rightarrow> (Inl x, st1)
      | (Inr media_ids, st1) \<Rightarrow>
          (case assemble_text (pre_process e (calls st1) (content t)) (url t) of
             Inl x \<Rightarrow> (Inl x, st1)
           | Inr text \<Rightarrow>
               if \<not> dry_run
               then post_tweet e t synced in_reply_to_toot_id text media_ids st1
               else (Inr (), st1)))"

text \<open>
  \<^verbatim>\<open>create_tweet_from_toot\<close>: the skip of a forwarded toot, the reply case, the boost case,
  then the plain case.
\<close>

definition create_tweet_from_toot :: "env \<Rightarrow> toot \<Rightarrow> bool \<Rightarrow> twoot_state \<Rightarrow> (exn + unit) \<times> twoot_state" where
  "create_tweet_from_toot e t dry_run st =
     (case mastodon_account (data st) of
        None \<Rightarrow> (Inl KeyError, st)
      | Some my_id \<Rightarrow>
          (let synced = synced_toots st in
           if id' t \<in> set synced then (Inr (), st)
           else if truthy (in_reply_to_account_id t) \<and> in_reply_to_account_id t \<noteq> Some my_id
           then (Inr (), st)
           else
             (let in_reply_to_toot_id =
                    (if truthy (in_reply_to_account_id t) then in_reply_to_id t else None)
              in case reblog t of
                   Some boosted_toot_id \<Rightarrow>
                     if boosted_toot_id \<in> set synced
                     then (if \<not> dry_run
                           then (case retweet e (find_paired_tweet boosted_toot_id st) st of
                                   (None, st1) \<Rightarrow> (Inr (), st1)
                                 | (Some new_id, st1) \<Rightarrow> (Inr (), store_twoot (id' t) new_id st1))
                           else (Inr (), st))
                     else (Inr (), st)
                 | None \<Rightarrow> mirror_toot e t dry_run synced in_reply_to_toot_id st)))"

section \<open>Orchestrator\<close>

text \<open>The loop of \<^verbatim>\<open>toots2tweets\<close> over the toots in the order given.\<close>

fun process_toots :: "env \<Rightarrow> toot list \<Rightarrow> bool \<Rightarrow> twoot_state \<Rightarrow> (exn + unit) \<times> twoot_state" where
  "process_toots e [] dry_run st = (Inr (), st)"
| "process_toots e (t # ts) dry_run st =
     (case create_tweet_from_toot e t dry_run st of
        (Inl x, st1) \<Rightarrow> (Inl x, st1)
      | (Inr _, st1) \<Rightarrow> process_toots e ts dry_run st1)"

text \<open>\<^verbatim>\<open>toots2tweets\<close>: \<^verbatim>\<open>for t in reversed(toots)\<close>.\<close>

definition toots2tweets :: "env \<Rightarrow> toot list \<Rightarrow> bool \<Rightarrow> twoot_state \<Rightarrow> (exn + unit) \<times> twoot_state" where
  "toots2tweets e toots dry_run st = process_toots e (rev toots) dry_run st"

text \<open>Python's slice \<^verbatim>\<open>xs[:n]\<close>; a negative \<open>n\<close> counts from the end.\<close>

definition slice_to :: "int \<Rightarrow> 'a list \<Rightarrow> 'a list" where
  "slice_to n xs = (if 0 \<le> n then take (nat n) xs else take (nat (int (length xs) + n)) xs)"

text \<open>
  \<^verbatim>\<open>__save_data\<close>: the file is opened for reading (it raises when there is none), the new
  twoots are put in front of the stored ones, the list is cut and written back.
\<close>

definition save_data :: "twoot_state \<Rightarrow> (exn + unit) \<times> twoot_state" where
  "save_data st =
     (case data_file st of
        None \<Rightarrow> (Inl FileNotFoundError, st)
      | Some d \<Rightarrow>
          (Inr (), st\<lparr>data_file :=
                        Some (d\<lparr>data_twoots :=
                                  slice_to (max_twoots st) (twoots st @ data_twoots d)\<rparr>)\<rparr>))"

text \<open>\<^verbatim>\<open>Twoot.run\<close>.\<close>

definition run :: "env \<Rightarrow> bool \<Rightarrow> bool \<Rightarrow> twoot_state \<Rightarrow> (exn + unit) \<times> twoot_state" where
  "run e dry_run update st =
     (let dry_run' = (if dry_run then (if setup_flag st then False else dry_run) else dry_run) in
      case get_new_toots e dry_run' update st of
        (Inl x, st1) \<Rightarrow> (Inl x, st1)
      | (Inr toots, st1) \<Rightarrow>
          (case (if \<not> setup_flag st1 then toots2tweets e toots dry_run' st1 else (Inr (), st1)) of
             (Inl x, st2) \<Rightarrow> (Inl x, st2)
           | (Inr _, st2) \<Rightarrow>
               if length (twoots st2) > 0 then save_data st2 else (Inr (), st2)))"

text \<open>
  The part of \<^verbatim>\<open>main\<close> after the options are read: the object is built and run. The result
  is what leaves \<^verbatim>\<open>main\<close>, together with the content of the data file and the destination
  calls afterwards. \<^verbatim>\<open>except IOError\<close> catches the exceptions of that class, of which
  \<^verbatim>\<open>FileNotFoundError\<close> is one.
\<close>

definition catch_io :: "exn + unit \<Rightarrow> exn + unit" where
  "catch_io r =
     (case r of
        Inl FileNotFoundError \<Rightarrow> Inr ()
      | Inl ClientIOError \<Rightarrow> Inr ()
      | _ \<Rightarrow> r)"

definition main :: "env \<Rightarrow> bool \<Rightarrow> bool \<Rightarrow> bool \<Rightarrow> int option \<Rightarrow> pdata option \<Rightarrow> (exn + unit) \<times> pdata option \<times> action list" where
  "main e setup_opt dry_run update config file =
     (case init e setup_opt config file of
        Inl x \<Rightarrow> (catch_io (Inl x), file, [])
      | Inr st \<Rightarrow>
          (case run e dry_run update st of
             (r, st') \<Rightarrow> (catch_io r, data_file st', calls st')))"

section \<open>Text transformer: the escaping before the HTML conversion\<close>

text \<open>\<^verbatim>\<open>html.replace(old, new)\<close> for an \<open>old\<close> of one character.\<close>

fun replace_char :: "char \<Rightarrow> string \<Rightarrow> string \<Rightarrow> string" where
  "replace_char old new [] = []"
| "replace_char old new (c # cs) =
     (if c = old then new @ replace_char old new cs else c # replace_char old new cs)"

text \<open>The list \<^verbatim>\<open>escapeable\<close> of \<^verbatim>\<open>__html2text\<close>: line break, space, backslash, plus, hyphen, period.\<close>

definition escapeable :: "(char \<times> string) list" where
  "escapeable =
     [(CHR 0x0A, ''<br>''), (CHR '' '', ''&nbsp;''), (CHR 0x5C, ''&#92;''),
      (CHR ''+'', ''&#43;''), (CHR ''-'', ''&#45;''), (CHR ''.'', ''&#46;'')]"

text \<open>The loop \<^verbatim>\<open>for p in escapeable: html = html.replace(p[0], p[1])\<close>.\<close>

definition escape_html :: "string \<Rightarrow> string" where
  "escape_html html = fold (\<lambda>p h. replace_char (fst p) (snd p) h) escapeable html"

text \<open>What the escaping does to one character.\<close>

definition escape_char :: "char \<Rightarrow> string" where
  "escape_char c = (case map_of escapeable c of Some r \<Rightarrow> r | None \<Rightarrow> [c])"

text \<open>No placeholder of \<^verbatim>\<open>escapeable\<close> occurs in the string.\<close>

definition placeholder_free :: "string \<Rightarrow> bool" where
  "placeholder_free s = list_all (\<lambda>p. \<not> str_in (snd p) s) escapeable"

section \<open>The truncation rule as the specification words it\<close>

text \<open>The text with the extracted URL, the first match, removed.\<close>

fun remove_first_url :: "string \<Rightarrow> string" where
  "remove_first_url [] = []"
| "remove_first_url (c # cs) =
     (case url_match (c # cs) of
        Some (m, r) \<Rightarrow> r
      | None \<Rightarrow> c # remove_first_url cs)"

text \<open>
  The rule of the specification for a text with a URL: budget 253 less 23, the remainder
  is cut and gets an ellipsis when it exceeds the budget, and the parts are joined.
\<close>

definition spec_assemble_text :: "string \<Rightarrow> string \<Rightarrow> string option" where
  "spec_assemble_text toot_text permalink =
     (case re_search_url toot_text of
        None \<Rightarrow> None
      | Some extracted_url \<Rightarrow>
          (let remainder = remove_first_url toot_text;
               budget = 253 - (23::nat);
               truncated_text = (if length remainder > budget
                                 then take budget remainder @ ''...''
                                 else remainder)
           in Some (truncated_text @ '' '' @ extracted_url @ '' '' @ permalink)))"

section \<open>What is persisted\<close>

text \<open>
  The two markers and the mapping history that a data file holds; without a file there
  are no markers and no mappings.
\<close>

definition persisted_markers :: "pdata option \<Rightarrow> int option \<times> int option" where
  "persisted_markers file =
     (case file of None \<Rightarrow> (None, None) | Some d \<Rightarrow> (last_toot d, last_tweet d))"

definition persisted_history :: "pdata option \<Rightarrow> twoot list" where
  "persisted_history file = (case file of None \<Rightarrow> [] | Some d \<Rightarrow> data_twoots d)"

section \<open>Sample inputs\<close>

text \<open>
  A world for concrete runs: the accounts 7 and 9, a fetch that answers with the given
  batch, a rendering that leaves the content as it is, a download that answers with the
  given response, and clients that number their answers by the calls made so far.
\<close>

definition sample_env :: "toot list \<Rightarrow> response \<Rightarrow> env" where
  "sample_env batch resp =
     \<lparr>ms_verify_credentials = Inr 7,
      tw_verify_credentials = Inr 9,
      account_statuses = (\<lambda>log my_id since_id. Inr batch),
      pre_process = (\<lambda>log html. html),
      requests_get = (\<lambda>log u. Inr resp),
      media_upload = (\<lambda>log img. Inr ''m1''),
      media_upload_init = (\<lambda>log n mime. Inr ''m2''),
      media_upload_append = (\<lambda>log media_id video. Inr ()),
      media_upload_finalize = (\<lambda>log media_id. Inr ''m2''),
      statuses_update = (\<lambda>log text in_reply_to media_ids. Inr (1000 + int (length log))),
      statuses_retweet = (\<lambda>log target. Inr (2000 + int (length log)))\<rparr>"

definition not_found :: response where
  "not_found = \<lparr>status_code = 404, content_type = Some ''text/html'', body = []\<rparr>"

text \<open>A data file of an earlier run: both accounts known, the marker at 100, no twoots.\<close>

definition sample_data :: pdata where
  "sample_data =
     \<lparr>mastodon_account = Some 7, twitter_account = Some 9,
      last_toot = Some 100, last_tweet = None, data_twoots = []\<rparr>"

definition sample_state :: twoot_state where
  "sample_state =
     \<lparr>setup_flag = False, max_twoots = 5, twoots = [], data = sample_data,
      data_file = Some sample_data, calls = []\<rparr>"

definition plain_toot :: "int \<Rightarrow> string \<Rightarrow> toot" where
  "plain_toot i txt =
     \<lparr>id' = i, in_reply_to_account_id = None, in_reply_to_id = None, reblog = None,
      media_attachments = [], content = txt, url = ''https://m.example/p''\<rparr>"

text \<open>A boost by the owner of the toot \<open>target\<close>.\<close>

definition boost_toot :: "int \<Rightarrow> int \<Rightarrow> toot" where
  "boost_toot i target = (plain_toot i [])\<lparr>reblog := Some target\<rparr>"

text \<open>A reply of the account 7, the owner, to the toot \<open>parent\<close>.\<close>

definition reply_toot :: "int \<Rightarrow> int \<Rightarrow> string \<Rightarrow> toot" where
  "reply_toot i parent txt =
     (plain_toot i txt)\<lparr>in_reply_to_account_id := Some 7, in_reply_to_id := Some parent\<rparr>"

text \<open>The state after loading a data file in which the toot 50 is paired with the tweet 500.\<close>

definition synced_data :: pdata where
  "synced_data = sample_data\<lparr>data_twoots := [\<lparr>toot_id = 50, tweet_id = 500\<rparr>]\<rparr>"

definition synced_state :: twoot_state where
  "synced_state = sample_state\<lparr>data := synced_data, data_file := Some synced_data\<rparr>"

definition image_toot :: "int \<Rightarrow> string \<Rightarrow> toot" where
  "image_toot i txt =
     (plain_toot i txt)\<lparr>media_attachments :=
        [\<lparr>media_type = ''image'', media_url = ''https://m.example/i.png''\<rparr>]\<rparr>"

definition not_an_image :: response where
  "not_an_image = \<lparr>status_code = 200, content_type = Some ''text/html'', body = ''<html>''\<rparr>"

section \<open>Auxiliary notions for the proofs\<close>

text \<open>The part of the state that only the marker store and the save write.\<close>

definition same_store :: "twoot_state \<Rightarrow> twoot_state \<Rightarrow> bool" where
  "same_store st st' =
     (data st' = data st \<and> data_file st' = data_file st \<and>
      setup_flag st' = setup_flag st \<and> max_twoots st' = max_twoots st)"

text \<open>The in-memory twoots are as before, or one twoot for the toot was put in front.\<close>

definition stored_at_most :: "int \<Rightarrow> twoot_state \<Rightarrow> twoot_state \<Rightarrow> bool" where
  "stored_at_most i st st' =
     (twoots st' = twoots st \<or> (\<exists>tw. twoots st' = \<lparr>toot_id = i, tweet_id = tw\<rparr> # twoots st))"

text \<open>The data file exists and holds the twoots that were loaded into \<open>data\<close>.\<close>

definition file_in_sync :: "twoot_state \<Rightarrow> bool" where
  "file_in_sync st =
     (case data_file st of
        None \<Rightarrow> False
      | Some d \<Rightarrow> data_twoots d = data_twoots (data st))"

section \<open>Frame properties of the engine\<close>

lemma same_store_refl: "same_store st st"
  by (simp add: same_store_def)

lemma same_store_trans: "same_store a b \<Longrightarrow> same_store b c \<Longrightarrow> same_store a c"
  by (simp add: same_store_def)

lemma call_frame: "same_store st (call a st)" "twoots (call a st) = twoots st"
  by (simp_all add: call_def same_store_def)

lemma store_twoot_frame:
  "same_store st (store_twoot i j st)"
  "twoots (store_twoot i j st) = \<lparr>toot_id = i, tweet_id = j\<rparr> # twoots st"
  by (simp_all add: store_twoot_def same_store_def)

lemma tweet_frame:
  "tweet e text rep ms st = (r, st') \<Longrightarrow> same_store st st' \<and> twoots st' = twoots st"
  by (auto simp: tweet_def call_frame split: sum.splits)

lemma retweet_frame:
  "retweet e target st = (r, st') \<Longrightarrow> same_store st st' \<and> twoots st' = twoots st"
  by (auto simp: retweet_def call_frame split: sum.splits)

lemma upload_video_frame:
  "upload_video e v m st = (r, st') \<Longrightarrow> same_store st st' \<and> twoots st' = twoots st"
  by (auto simp: upload_video_def Let_def call_def same_store_def split: sum.splits)

lemma post_media_frame:
  "post_media_to_twitter e m st = (r, st') \<Longrightarrow> same_store st st' \<and> twoots st' = twoots st"
  by (auto simp: post_media_to_twitter_def call_frame same_store_refl
           split: if_splits sum.splits option.splits prod.splits dest: upload_video_frame)

lemma post_all_media_frame:
  "post_all_media e ms st = (r, st') \<Longrightarrow> same_store st st' \<and> twoots st' = twoots st"
proof (induction ms arbitrary: st r st')
  case Nil
  then show ?case by (simp add: same_store_refl)
next
  case (Cons m ms)
  obtain r1 st1 where p: "post_media_to_twitter e m st = (r1, st1)" by fastforce
  from post_media_frame [OF p] have f1: "same_store st st1" "twoots st1 = twoots st" by simp_all
  show ?case
  proof (cases r1)
    case (Inl x)
    with Cons.prems p f1 show ?thesis by simp
  next
    case (Inr a)
    obtain r2 st2 where q: "post_all_media e ms st1 = (r2, st2)" by fastforce
    from Cons.IH [OF q] have f2: "same_store st1 st2" "twoots st2 = twoots st1" by simp_all
    from Cons.prems p q Inr have "st' = st2" by (auto split: sum.splits)
    with f1 f2 show ?thesis by (auto intro: same_store_trans)
  qed
qed

lemma post_tweet_frame:
  assumes "post_tweet e t synced irt text ms st = (r, st')"
  shows "same_store st st' \<and> stored_at_most (id' t) st st'"
proof -
  obtain r1 st1 where tw:
    "(case irt of
        None \<Rightarrow> tweet e text None ms st
      | Some parent \<Rightarrow>
          if parent \<in> set synced
          then tweet e text (find_paired_tweet parent st) ms st
          else tweet e text None ms st) = (r1, st1)"
    by fastforce
  then have f1: "same_store st st1 \<and> twoots st1 = twoots st"
    by (auto split: option.splits if_splits dest: tweet_frame)
  from assms tw have st': "st' = (case r1 of None \<Rightarrow> st1 | Some new_id \<Rightarrow> store_twoot (id' t) new_id st1)"
    by (simp add: post_tweet_def)
  show ?thesis
  proof (cases r1)
    case None
    with st' f1 show ?thesis by (simp add: stored_at_most_def)
  next
    case (Some new_id)
    with st' f1 show ?thesis
      by (auto simp: stored_at_most_def store_twoot_frame intro: same_store_trans)
  qed
qed

lemma mirror_toot_frame:
  assumes "mirror_toot e t dry synced irt st = (r, st')"
  shows "same_store st st' \<and> stored_at_most (id' t) st st'"
proof (cases dry)
  case True
  with assms have "st' = st"
    by (auto simp: mirror_toot_def split: sum.splits)
  then show ?thesis by (simp add: same_store_refl stored_at_most_def)
next
  case False
  obtain r1 st1 where m: "post_all_media e (media_attachments t) st = (r1, st1)" by fastforce
  from post_all_media_frame [OF m] have f1: "same_store st st1" "twoots st1 = twoots st"
    by simp_all
  show ?thesis
  proof (cases r1)
    case (Inl x)
    with assms False m have "st' = st1" by (simp add: mirror_toot_def)
    with f1 show ?thesis by (simp add: stored_at_most_def)
  next
    case (Inr twitter_media)
    show ?thesis
    proof (cases "assemble_text (pre_process e (calls st1) (content t)) (url t)")
      case (Inl x)
      with assms False m Inr have "st' = st1" by (simp add: mirror_toot_def)
      with f1 show ?thesis by (simp add: stored_at_most_def)
    next
      case (Inr tx)
      with assms False m \<open>r1 = Inr twitter_media\<close>
      have "post_tweet e t synced irt tx (media_ids_of twitter_media) st1 = (r, st')"
        by (simp add: mirror_toot_def)
      from post_tweet_frame [OF this] f1 show ?thesis
        by (auto simp: stored_at_most_def intro: same_store_trans)
    qed
  qed
qed

lemma create_tweet_from_toot_frame:
  assumes "create_tweet_from_toot e t dry st = (r, st')"
  shows "same_store st st' \<and> stored_at_most (id' t) st st'"
proof (cases "mastodon_account (data st)")
  case None
  with assms have "st' = st" by (simp add: create_tweet_from_toot_def)
  then show ?thesis by (simp add: same_store_refl stored_at_most_def)
next
  case (Some my_id)
  show ?thesis
  proof (cases "id' t \<in> set (synced_toots st)
                \<or> (truthy (in_reply_to_account_id t) \<and> in_reply_to_account_id t \<noteq> Some my_id)")
    case True
    with assms Some have "st' = st"
      by (auto simp: create_tweet_from_toot_def Let_def split: if_splits)
    then show ?thesis by (simp add: same_store_refl stored_at_most_def)
  next
    case False
    show ?thesis
    proof (cases "reblog t")
      case None
      with assms Some False
      have "mirror_toot e t dry (synced_toots st)
              (if truthy (in_reply_to_account_id t) then in_reply_to_id t else None) st = (r, st')"
        by (auto simp: create_tweet_from_toot_def Let_def)
      then show ?thesis by (rule mirror_toot_frame)
    next
      case (Some b)
      show ?thesis
      proof (cases "b \<in> set (synced_toots st) \<and> \<not> dry")
        case True
        obtain r1 st1 where rt: "retweet e (find_paired_tweet b st) st = (r1, st1)" by fastforce
        from retweet_frame [OF rt] have f1: "same_store st st1" "twoots st1 = twoots st"
          by simp_all
        from assms \<open>mastodon_account (data st) = Some my_id\<close> False Some True rt
        have "st' = (case r1 of None \<Rightarrow> st1 | Some new_id \<Rightarrow> store_twoot (id' t) new_id st1)"
          by (auto simp: create_tweet_from_toot_def Let_def split: option.splits)
        with f1 show ?thesis
          by (cases r1) (auto simp: stored_at_most_def store_twoot_frame intro: same_store_trans)
      next
        case nb: False
        with assms \<open>mastodon_account (data st) = Some my_id\<close> False Some
        have "st' = st" by (auto simp: create_tweet_from_toot_def Let_def split: if_splits)
        then show ?thesis by (simp add: same_store_refl stored_at_most_def)
      qed
    qed
  qed
qed

text \<open>A toot whose id is in the history is skipped: the whole state stays as it is.\<close>

lemma create_tweet_from_toot_skip:
  "id' t \<in> set (synced_toots st) \<Longrightarrow> snd (create_tweet_from_toot e t dry st) = st"
  by (simp add: create_tweet_from_toot_def Let_def split: option.splits)

text \<open>In a dry run the engine changes nothing.\<close>

lemma create_tweet_from_toot_dry:
  "snd (create_tweet_from_toot e t True st) = st"
  by (simp add: create_tweet_from_toot_def mirror_toot_def Let_def split: option.splits sum.splits)

lemma process_toots_dry: "snd (process_toots e ts True st) = st"
proof (induction ts)
  case Nil
  then show ?case by simp
next
  case (Cons t ts)
  obtain r1 st1 where c: "create_tweet_from_toot e t True st = (r1, st1)" by fastforce
  with create_tweet_from_toot_dry [of e t st] have "st1 = st" by simp
  with c Cons show ?case by (cases r1) simp_all
qed

text \<open>A twoot is only stored for a toot that is not in the history yet.\<close>

lemma create_tweet_from_toot_distinct:
  assumes "create_tweet_from_toot e t dry st = (r, st')" and "distinct (synced_toots st)"
  shows "distinct (synced_toots st')"
proof (cases "id' t \<in> set (synced_toots st)")
  case True
  with create_tweet_from_toot_skip [of t st e dry] assms show ?thesis by simp
next
  case False
  from create_tweet_from_toot_frame [OF assms(1)]
  have "data st' = data st" and "stored_at_most (id' t) st st'"
    by (simp_all add: same_store_def)
  then have "synced_toots st' = synced_toots st \<or> synced_toots st' = id' t # synced_toots st"
    by (auto simp: stored_at_most_def synced_toots_def history_def)
  with False assms(2) show ?thesis by auto
qed

lemma process_toots_frame:
  "process_toots e ts dry st = (r, st') \<Longrightarrow> same_store st st'"
proof (induction ts arbitrary: st)
  case Nil
  then show ?case by (simp add: same_store_refl)
next
  case (Cons t ts)
  obtain r1 st1 where c: "create_tweet_from_toot e t dry st = (r1, st1)" by fastforce
  from create_tweet_from_toot_frame [OF c] have f1: "same_store st st1" by simp
  show ?case
  proof (cases r1)
    case (Inl x)
    with Cons.prems c f1 show ?thesis by simp
  next
    case (Inr u)
    with Cons.prems c have "process_toots e ts dry st1 = (r, st')" by simp
    from Cons.IH [OF this] f1 show ?thesis by (rule same_store_trans [rotated])
  qed
qed

lemma process_toots_distinct:
  "process_toots e ts dry st = (r, st') \<Longrightarrow> distinct (synced_toots st)
   \<Longrightarrow> distinct (synced_toots st')"
proof (induction ts arbitrary: st)
  case Nil
  then show ?case by simp
next
  case (Cons t ts)
  obtain r1 st1 where c: "create_tweet_from_toot e t dry st = (r1, st1)" by fastforce
  from create_tweet_from_toot_distinct [OF c Cons.prems(2)] have d1: "distinct (synced_toots st1)" .
  show ?case
  proof (cases r1)
    case (Inl x)
    with Cons.prems c d1 show ?thesis by simp
  next
    case (Inr u)
    with Cons.prems c have "process_toots e ts dry st1 = (r, st')" by simp
    from Cons.IH [OF this d1] show ?thesis .
  qed
qed
section \<open>Fetcher, run and construction\<close>

lemma get_new_toots_dry: "snd (get_new_toots e True False st) = st"
  by (simp add: get_new_toots_def Let_def split: option.splits sum.splits list.splits)

lemma update_last_id_frame:
  "data (update_last_id k v st) = data st"
  "twoots (update_last_id k v st) = twoots st"
  "setup_flag (update_last_id k v st) = setup_flag st"
  "max_twoots (update_last_id k v st) = max_twoots st"
  "calls (update_last_id k v st) = calls st"
  by (simp_all add: update_last_id_def Let_def)

lemma update_last_id_in_sync: "file_in_sync st \<Longrightarrow> file_in_sync (update_last_id k v st)"
  by (cases k) (auto simp: file_in_sync_def update_last_id_def split: option.splits)

lemma get_new_toots_frame:
  assumes "get_new_toots e dry upd st = (r, st')"
  shows "data st' = data st \<and> twoots st' = twoots st \<and> setup_flag st' = setup_flag st
         \<and> max_twoots st' = max_twoots st \<and> calls st' = calls st
         \<and> (file_in_sync st \<longrightarrow> file_in_sync st')"
proof -
  from assms have "st' = st \<or> (\<exists>v. st' = update_last_id LastToot v st)"
    by (auto simp: get_new_toots_def Let_def split: option.splits sum.splits list.splits if_splits)
  then show ?thesis
    by (auto simp: update_last_id_frame update_last_id_in_sync)
qed

lemma toots2tweets_dry: "snd (toots2tweets e toots True st) = st"
  by (simp add: toots2tweets_def process_toots_dry)

lemma run_dry:
  assumes "\<not> setup_flag st" and "twoots st = []"
  shows "snd (run e True False st) = st"
proof -
  obtain r1 st1 where g: "get_new_toots e True False st = (r1, st1)" by fastforce
  with get_new_toots_dry [of e st] have s1: "st1 = st" by simp
  show ?thesis
  proof (cases r1)
    case (Inl x)
    with g s1 assms show ?thesis by (simp add: run_def)
  next
    case (Inr toots)
    obtain r2 st2 where t: "toots2tweets e toots True st = (r2, st2)" by fastforce
    with toots2tweets_dry [of e toots st] have s2: "st2 = st" by simp
    from g s1 Inr t s2 assms show ?thesis
      by (cases r2) (simp_all add: run_def)
  qed
qed

lemma init_state:
  assumes "init e setup_param config file = Inr st"
  shows "\<not> setup_flag st" and "twoots st = []" and "calls st = []"
    and "data_file st = Some (data st)"
    and "persisted_markers (data_file st) = persisted_markers file"
    and "persisted_history (data_file st) = persisted_history file"
  using assms
  by (auto simp: init_def Let_def persisted_markers_def persisted_history_def empty_data_def
           split: option.splits sum.splits if_splits)

lemma slice_to_distinct: "distinct (map f xs) \<Longrightarrow> distinct (map f (slice_to n xs))"
  by (simp add: slice_to_def take_map [symmetric] distinct_take del: take_map)

lemma save_data_distinct:
  assumes "file_in_sync st" and "distinct (synced_toots st)"
  shows "distinct (map toot_id (persisted_history (data_file (snd (save_data st)))))"
  using assms
  by (auto simp: file_in_sync_def save_data_def persisted_history_def synced_toots_def
                 history_def slice_to_distinct
           split: option.splits)

lemma in_sync_distinct:
  assumes "file_in_sync st" and "distinct (synced_toots st)"
  shows "distinct (map toot_id (persisted_history (data_file st)))"
  using assms
  by (auto simp: file_in_sync_def persisted_history_def synced_toots_def history_def
           split: option.splits)

lemma same_store_in_sync: "same_store st st' \<Longrightarrow> file_in_sync st \<Longrightarrow> file_in_sync st'"
  by (auto simp: same_store_def file_in_sync_def split: option.splits)

lemma run_distinct:
  assumes "file_in_sync st" and "distinct (synced_toots st)"
  shows "distinct (map toot_id (persisted_history (data_file (snd (run e dry upd st)))))"
proof -
  let ?dry = "if dry then (if setup_flag st then False else dry) else dry"
  obtain r1 st1 where g: "get_new_toots e ?dry upd st = (r1, st1)" by fastforce
  from get_new_toots_frame [OF g] assms
  have s1: "file_in_sync st1" "distinct (synced_toots st1)"
    by (simp_all add: synced_toots_def history_def)
  show ?thesis
  proof (cases r1)
    case (Inl x)
    with g s1 show ?thesis by (simp add: run_def in_sync_distinct)
  next
    case (Inr toots)
    obtain r2 st2 where t:
      "(if \<not> setup_flag st1 then toots2tweets e toots ?dry st1 else (Inr (), st1)) = (r2, st2)"
      by fastforce
    then have s2: "file_in_sync st2 \<and> distinct (synced_toots st2)"
      using s1
      by (auto simp: toots2tweets_def split: if_splits
               dest: process_toots_frame process_toots_distinct same_store_in_sync)
    from g Inr t s2 show ?thesis
      by (cases r2) (simp_all add: run_def in_sync_distinct save_data_distinct)
  qed
qed
section \<open>Retention: the end-of-run save\<close>

text \<open>\<^verbatim>\<open>run\<close> ends with the save exactly when a twoot was stored in the run.\<close>

lemma run_saves:
  assumes "get_new_toots e (dry \<and> \<not> setup_flag st) upd st = (Inr toots, st1)"
    and "\<not> setup_flag st1"
    and "toots2tweets e toots (dry \<and> \<not> setup_flag st) st1 = (Inr u, st2)"
  shows "run e dry upd st = (if twoots st2 \<noteq> [] then save_data st2 else (Inr (), st2))"
proof -
  have "(if dry then (if setup_flag st then False else dry) else dry) = (dry \<and> \<not> setup_flag st)"
    by simp
  with assms show ?thesis by (simp add: run_def)
qed

text \<open>
  Claim C8. When the data file exists and the retention limit is not negative, the save
  at the end of a run writes the new twoots, newest first, in front of the twoots read
  from the file at that moment, cut to the first \<open>max_twoots\<close> entries; the rest of
  the file and of the state stays as it is.
\<close>

theorem save_data_prepends_and_truncates:
  assumes "data_file st = Some d" and "0 \<le> max_twoots st"
  shows "save_data st =
           (Inr (), st\<lparr>data_file :=
                         Some (d\<lparr>data_twoots :=
                                   take (nat (max_twoots st)) (twoots st @ data_twoots d)\<rparr>)\<rparr>)"
  using assms by (simp add: save_data_def slice_to_def)

text \<open>
  Two saves with the limit 5: four twoots after the first run, four more after the
  second; the file then holds the five newest of the eight, newest first.
\<close>

theorem save_data_prepends_and_truncates_witness:
  "data_file sample_state = Some sample_data \<and> 0 \<le> max_twoots sample_state \<and>
   (\<exists>st1 st2.
      save_data (sample_state\<lparr>twoots := map (\<lambda>i. \<lparr>toot_id = i, tweet_id = 10 * i\<rparr>) [4, 3, 2, 1]\<rparr>)
        = (Inr (), st1) \<and>
      save_data (st1\<lparr>twoots := map (\<lambda>i. \<lparr>toot_id = i, tweet_id = 10 * i\<rparr>) [8, 7, 6, 5]\<rparr>)
        = (Inr (), st2) \<and>
      persisted_history (data_file st2)
        = map (\<lambda>i. \<lparr>toot_id = i, tweet_id = 10 * i\<rparr>) [8, 7, 6, 5, 4])"
proof -
  let ?mk = "\<lambda>i::int. \<lparr>toot_id = i, tweet_id = 10 * i\<rparr>"
  let ?s0 = "sample_state\<lparr>twoots := map ?mk [4, 3, 2, 1]\<rparr>"
  let ?d1 = "sample_data\<lparr>data_twoots := map ?mk [4, 3, 2, 1]\<rparr>"
  let ?st1 = "?s0\<lparr>data_file := Some ?d1\<rparr>"
  let ?s1 = "?st1\<lparr>twoots := map ?mk [8, 7, 6, 5]\<rparr>"
  let ?d2 = "?d1\<lparr>data_twoots := map ?mk [8, 7, 6, 5, 4]\<rparr>"
  let ?st2 = "?s1\<lparr>data_file := Some ?d2\<rparr>"
  have a: "data_file ?s0 = Some sample_data" "0 \<le> max_twoots ?s0"
    by (simp_all add: sample_state_def)
  have b: "data_file ?s1 = Some ?d1" "0 \<le> max_twoots ?s1"
    by (simp_all add: sample_state_def)
  have one: "save_data ?s0 = (Inr (), ?st1)"
    using save_data_prepends_and_truncates [OF a]
    by (simp add: sample_state_def sample_data_def)
  have two: "save_data ?s1 = (Inr (), ?st2)"
    using save_data_prepends_and_truncates [OF b]
    by (simp add: sample_state_def sample_data_def)
  have three: "persisted_history (data_file ?st2) = map ?mk [8, 7, 6, 5, 4]"
    by (simp add: persisted_history_def)
  from one two three a show ?thesis
    by (intro conjI exI [of _ ?st1] exI [of _ ?st2]) (simp_all add: sample_state_def)
qed

text \<open>
  The same over two whole runs with the limit 5, starting from a file with one twoot: the
  first run retweets for four boosts, the second for three; of the eight twoots the file
  keeps the five newest, newest first.
\<close>

lemma retention_over_two_runs:
  "main (sample_env [boost_toot 104 50, boost_toot 103 50, boost_toot 102 50, boost_toot 101 50]
           not_found)
        False False False (Some 5) (Some synced_data)
     = (Inr (),
        Some (synced_data
          \<lparr>last_toot := Some 104,
           data_twoots := map (\<lambda>(i, j). \<lparr>toot_id = i, tweet_id = j\<rparr>)
             [(104, 2003), (103, 2002), (102, 2001), (101, 2000), (50, 500)]\<rparr>),
        replicate 4 (Retweet (Some 500)))
   \<and> fst (snd (main (sample_env [boost_toot 107 50, boost_toot 106 50, boost_toot 105 50] not_found)
        False False False (Some 5)
        (Some (synced_data
          \<lparr>last_toot := Some 104,
           data_twoots := map (\<lambda>(i, j). \<lparr>toot_id = i, tweet_id = j\<rparr>)
             [(104, 2003), (103, 2002), (102, 2001), (101, 2000), (50, 500)]\<rparr>))))
     = Some (synced_data
          \<lparr>last_toot := Some 107,
           data_twoots := map (\<lambda>(i, j). \<lparr>toot_id = i, tweet_id = j\<rparr>)
             [(107, 2002), (106, 2001), (105, 2000), (104, 2003), (103, 2002)]\<rparr>)"
  by code_simp

section \<open>Dry run\<close>

text \<open>
  Claim C5. A run with dry-run enabled and the update flag disabled leaves the persisted
  markers and the persisted mapping history as they were, whatever the options, the
  configuration, the data file, the answers of the platforms and the fetched batch are,
  and also when the run ends with an exception.
\<close>

theorem dry_run_does_not_mutate:
  "persisted_markers (fst (snd (main e setup_opt True False config file))) = persisted_markers file
   \<and> persisted_history (fst (snd (main e setup_opt True False config file))) = persisted_history file"
proof (cases "init e setup_opt config file")
  case (Inl x)
  then show ?thesis by (simp add: main_def)
next
  case (Inr st)
  note i = init_state [OF Inr]
  obtain r st' where r: "run e True False st = (r, st')" by fastforce
  with run_dry [OF i(1) i(2), of e] have "st' = st" by simp
  with Inr r i(5) i(6) show ?thesis by (simp add: main_def)
qed

theorem dry_run_does_not_mutate_witness:
  "fst (main (sample_env [boost_toot 102 50, plain_toot 101 ''hi https://x.y/z''] not_found)
          False True False (Some 5) (Some synced_data)) = Inr ()
   \<and> persisted_markers (fst (snd (main
          (sample_env [boost_toot 102 50, plain_toot 101 ''hi https://x.y/z''] not_found)
          False True False (Some 5) (Some synced_data)))) = (Some 100, None)
   \<and> persisted_history (fst (snd (main
          (sample_env [boost_toot 102 50, plain_toot 101 ''hi https://x.y/z''] not_found)
          False True False (Some 5) (Some synced_data)))) = [\<lparr>toot_id = 50, tweet_id = 500\<rparr>]"
proof -
  have a: "persisted_markers (Some synced_data) = (Some 100, None)"
    by (simp add: persisted_markers_def synced_data_def sample_data_def)
  have b: "persisted_history (Some synced_data) = [\<lparr>toot_id = 50, tweet_id = 500\<rparr>]"
    by (simp add: persisted_history_def synced_data_def)
  have c: "fst (main (sample_env [boost_toot 102 50, plain_toot 101 ''hi https://x.y/z''] not_found)
          False True False (Some 5) (Some synced_data)) = Inr ()"
    by code_simp
  from a b c dry_run_does_not_mutate
    [of "sample_env [boost_toot 102 50, plain_toot 101 ''hi https://x.y/z''] not_found"
        False "Some 5" "Some synced_data"]
  show ?thesis by simp
qed

section \<open>At most one mapping for a toot\<close>

lemma main_distinct:
  assumes "distinct (map toot_id (persisted_history file))"
  shows "distinct (map toot_id (persisted_history (fst (snd (main e setup_opt dry upd config file)))))"
proof (cases "init e setup_opt config file")
  case (Inl x)
  with assms show ?thesis by (simp add: main_def)
next
  case (Inr st)
  note i = init_state [OF Inr]
  from i(4) have "file_in_sync st" by (simp add: file_in_sync_def)
  moreover from i(2) i(4) i(6) have "synced_toots st = map toot_id (persisted_history file)"
    by (simp add: synced_toots_def history_def persisted_history_def)
  ultimately
  have "distinct (map toot_id (persisted_history (data_file (snd (run e dry upd st)))))"
    using assms by (simp add: run_distinct)
  with Inr show ?thesis by (cases "run e dry upd st") (simp add: main_def)
qed

text \<open>
  Claim C6. The decision engine skips a toot whose id is in the history (the new twoots
  followed by the loaded ones): the state, and with it the calls made and the twoots
  stored, stays as it is. Hence no toot id occurs twice in the history: neither after one
  toot, nor after a batch (in which a toot may occur again), nor in the data file after
  a run, so neither for a toot that is fetched again in a later run.
\<close>

theorem mirrored_at_most_once:
  "(id' t \<in> set (synced_toots st) \<longrightarrow> snd (create_tweet_from_toot e t dry st) = st)
   \<and> (distinct (synced_toots st) \<longrightarrow>
        distinct (synced_toots (snd (create_tweet_from_toot e t dry st)))
        \<and> distinct (synced_toots (snd (toots2tweets e batch dry st))))
   \<and> (distinct (map toot_id (persisted_history old_file)) \<longrightarrow>
        distinct (map toot_id
          (persisted_history (fst (snd (main e setup_opt dry upd config old_file))))))"
proof (intro conjI impI)
  assume "id' t \<in> set (synced_toots st)"
  then show "snd (create_tweet_from_toot e t dry st) = st"
    by (rule create_tweet_from_toot_skip)
next
  assume d: "distinct (synced_toots st)"
  obtain r st' where c: "create_tweet_from_toot e t dry st = (r, st')" by fastforce
  from create_tweet_from_toot_distinct [OF c d] c
  show "distinct (synced_toots (snd (create_tweet_from_toot e t dry st)))" by simp
  obtain r2 st2 where p: "process_toots e (rev batch) dry st = (r2, st2)" by fastforce
  from process_toots_distinct [OF p d] p
  show "distinct (synced_toots (snd (toots2tweets e batch dry st)))"
    by (simp add: toots2tweets_def)
next
  assume "distinct (map toot_id (persisted_history old_file))"
  then show "distinct (map toot_id
      (persisted_history (fst (snd (main e setup_opt dry upd config old_file)))))"
    by (rule main_distinct)
qed

text \<open>
  The boost 101 of the synced toot 50 is fetched twice: it is retweeted once, the second
  occurrence is skipped, and the file holds one twoot for it after the run.
\<close>

theorem mirrored_at_most_once_witness:
  "id' (boost_toot 50 50) \<in> set (synced_toots synced_state)
   \<and> snd (create_tweet_from_toot (sample_env [boost_toot 101 50, boost_toot 101 50] not_found) (boost_toot 50 50) False synced_state)
       = synced_state
   \<and> distinct (synced_toots synced_state)
   \<and> distinct (synced_toots (snd (create_tweet_from_toot (sample_env [boost_toot 101 50, boost_toot 101 50] not_found)
        (boost_toot 50 50) False synced_state)))
   \<and> distinct (synced_toots (snd (toots2tweets (sample_env [boost_toot 101 50, boost_toot 101 50] not_found)
        [boost_toot 101 50, boost_toot 101 50] False synced_state)))
   \<and> calls (snd (toots2tweets (sample_env [boost_toot 101 50, boost_toot 101 50] not_found)
        [boost_toot 101 50, boost_toot 101 50] False synced_state)) = [Retweet (Some 500)]
   \<and> distinct (map toot_id (persisted_history (Some synced_data)))
   \<and> distinct (map toot_id (persisted_history (fst (snd (main
        (sample_env [boost_toot 101 50, boost_toot 101 50] not_found)
        False False False (Some 5) (Some synced_data))))))
   \<and> persisted_history (fst (snd (main
        (sample_env [boost_toot 101 50, boost_toot 101 50] not_found)
        False False False (Some 5) (Some synced_data))))
       = [\<lparr>toot_id = 101, tweet_id = 2000\<rparr>, \<lparr>toot_id = 50, tweet_id = 500\<rparr>]"
proof -
  have h1: "id' (boost_toot 50 50) \<in> set (synced_toots synced_state)"
    by code_simp
  have h2: "distinct (synced_toots synced_state)"
    by code_simp
  have h3: "distinct (map toot_id (persisted_history (Some synced_data)))"
    by code_simp
  have v1: "calls (snd (toots2tweets (sample_env [boost_toot 101 50, boost_toot 101 50] not_found)
        [boost_toot 101 50, boost_toot 101 50] False synced_state)) = [Retweet (Some 500)]"
    by code_simp
  have v2: "persisted_history (fst (snd (main
        (sample_env [boost_toot 101 50, boost_toot 101 50] not_found)
        False False False (Some 5) (Some synced_data))))
       = [\<lparr>toot_id = 101, tweet_id = 2000\<rparr>, \<lparr>toot_id = 50, tweet_id = 500\<rparr>]"
    by code_simp
  from mirrored_at_most_once
    [where t = "boost_toot 50 50" and st = synced_state
       and e = "sample_env [boost_toot 101 50, boost_toot 101 50] not_found" and dry = False
       and batch = "[boost_toot 101 50, boost_toot 101 50]" and old_file = "Some synced_data"
       and setup_opt = False and upd = False and config = "Some 5"]
    h1 h2 h3 v1 v2
  show ?thesis by blast
qed
section \<open>The call after a mirrored post\<close>

text \<open>
  Whatever the client answers, the last part of the engine ends with the exception of
  the missing attribute, so a run that is not dry never gets past a plain toot.
\<close>

lemma post_tweet_raises: "fst (post_tweet e t synced irt tx ms st) = Inl AttributeError"
  by (simp add: post_tweet_def Let_def split: prod.splits)

lemma mirror_toot_raises:
  assumes "\<not> dry"
  shows "\<exists>x. fst (mirror_toot e t dry synced irt st) = Inl x"
proof -
  obtain r1 st1 where m: "post_all_media e (media_attachments t) st = (r1, st1)" by fastforce
  show ?thesis
  proof (cases r1)
    case (Inl x)
    with assms m show ?thesis by (simp add: mirror_toot_def)
  next
    case (Inr twitter_media)
    show ?thesis
    proof (cases "assemble_text (pre_process e (calls st1) (content t)) (url t)")
      case (Inl x)
      with assms m Inr show ?thesis by (simp add: mirror_toot_def)
    next
      case (Inr tx)
      with assms m \<open>r1 = Inr twitter_media\<close> show ?thesis
        by (simp add: mirror_toot_def post_tweet_raises)
    qed
  qed
qed

text \<open>
  Claim C1, at a failing input. A run that is not dry fetches one plain toot whose text
  has a URL. The tweet is created (the client answers with the id 1000) and the twoot is
  stored in memory; then \<^verbatim>\<open>AttributeError\<close> leaves \<^verbatim>\<open>run\<close> and \<^verbatim>\<open>main\<close>, the save is
  not reached and the data file holds no twoot.
\<close>

theorem mirrored_post_ends_run:
  "run (sample_env [plain_toot 101 ''hi https://x.y/z''] not_found) False False sample_state
     = (Inl AttributeError,
        sample_state
          \<lparr>twoots := [\<lparr>toot_id = 101, tweet_id = 1000\<rparr>],
           data_file := Some (sample_data\<lparr>last_toot := Some 101\<rparr>),
           calls := [StatusUpdate ''hi  https://x.y/z https://m.example/p'' None []]\<rparr>)
   \<and> main (sample_env [plain_toot 101 ''hi https://x.y/z''] not_found)
          False False False (Some 5) (Some sample_data)
     = (Inl AttributeError, Some (sample_data\<lparr>last_toot := Some 101\<rparr>),
        [StatusUpdate ''hi  https://x.y/z https://m.example/p'' None []])"
  by code_simp

section \<open>Setup mode\<close>

text \<open>The constructor gives the same object for both values of its parameter.\<close>

lemma init_ignores_setup: "init e True config file = init e False config file"
  by (simp add: init_def)

text \<open>With the flag set, \<^verbatim>\<open>run\<close> fetches and does not call the engine.\<close>

lemma run_in_setup_mode:
  assumes "setup_flag st" and "twoots st = []"
  shows "calls (snd (run e dry upd st)) = calls st \<and> twoots (snd (run e dry upd st)) = []"
proof -
  obtain r1 st1 where g: "get_new_toots e False upd st = (r1, st1)" by fastforce
  from get_new_toots_frame [OF g] assms
  have "setup_flag st1" "twoots st1 = []" "calls st1 = calls st" by simp_all
  with g assms show ?thesis by (cases r1) (simp_all add: run_def)
qed

text \<open>
  Claim C2, at a failing input. The program is started with the setup option, the marker
  is at 100 and one plain toot is fetched. The constructor drops the option
  (\<^verbatim>\<open>self.setup = False\<close>), so the toot goes through the decision engine and a tweet is
  created for it.
\<close>

theorem setup_option_is_dropped:
  "map_sum id setup_flag
       (init (sample_env [plain_toot 101 ''hi https://x.y/z''] not_found) True (Some 5)
          (Some sample_data)) = Inr False
   \<and> main (sample_env [plain_toot 101 ''hi https://x.y/z''] not_found)
          True False False (Some 5) (Some sample_data)
     = (Inl AttributeError, Some (sample_data\<lparr>last_toot := Some 101\<rparr>),
        [StatusUpdate ''hi  https://x.y/z https://m.example/p'' None []])"
  by code_simp

section \<open>A text without a URL\<close>

lemma assemble_text_no_url:
  "re_search_url toot_text = None \<Longrightarrow> assemble_text toot_text permalink = Inl AttributeError"
  by (simp add: assemble_text_def)

text \<open>
  Claim C4, at a failing input. The rendered text \<^verbatim>\<open>hello\<close> has no URL: the search gives
  \<^verbatim>\<open>None\<close>, \<^verbatim>\<open>.group\<close> raises \<^verbatim>\<open>AttributeError\<close>, and the exception leaves the engine, in a
  dry run and in a real one, and ends the run.
\<close>

theorem text_without_url_raises:
  "re_search_url ''hello'' = None
   \<and> create_tweet_from_toot (sample_env [] not_found) (plain_toot 101 ''hello'') True sample_state
       = (Inl AttributeError, sample_state)
   \<and> create_tweet_from_toot (sample_env [] not_found) (plain_toot 101 ''hello'') False sample_state
       = (Inl AttributeError, sample_state)
   \<and> main (sample_env [plain_toot 101 ''hello''] not_found) False True False (Some 5)
          (Some sample_data)
       = (Inl AttributeError, Some sample_data, [])"
  by code_simp

section \<open>A reply to a toot of the same batch\<close>

text \<open>
  Claim C7, at a failing input. The batch holds the reply 102 (newest, first) and its
  parent 101. The parent is processed first and a tweet is created for it; the exception
  after it ends the loop, so the reply is never looked at: the only call is the tweet of
  the parent, and no tweet that replies to the tweet 1000 is made.
\<close>

theorem reply_in_batch_is_not_reached:
  "main (sample_env [reply_toot 102 101 ''b https://x.y/z'', plain_toot 101 ''a https://x.y/z'']
           not_found)
        False False False (Some 5) (Some sample_data)
     = (Inl AttributeError, Some (sample_data\<lparr>last_toot := Some 102\<rparr>),
        [StatusUpdate ''a  https://x.y/z https://m.example/p'' None []])"
  by code_simp

section \<open>A download that does not give an image\<close>

lemma download_image_absent:
  assumes "requests_get e (calls st) u = Inr r"
    and "status_code r \<noteq> 200 \<or> (\<exists>c. content_type r = Some c \<and> \<not> str_in ''image'' c)"
  shows "download_image e u st = Inr None"
  using assms by (auto simp: download_image_def download_def)

lemma post_media_absent_download:
  assumes "media_type m = ''image''" and "download_image e (media_url m) st = Inr None"
  shows "post_media_to_twitter e m st = (Inl TypeError, st)"
  using assms by (simp add: post_media_to_twitter_def)

text \<open>
  Claim C9, at two failing inputs. The download of an image attachment answers with the
  status 404, or with the status 200 and the content type \<^verbatim>\<open>text/html\<close>. The download
  function returns \<^verbatim>\<open>None\<close>; the relay unpacks it into two names outside its \<^verbatim>\<open>try\<close>, which
  raises \<^verbatim>\<open>TypeError\<close>. The exception leaves the engine: no tweet is made for the toot.
\<close>

theorem image_download_failure_raises:
  "download_image (sample_env [] not_found) ''https://m.example/i.png'' sample_state = Inr None
   \<and> post_media_to_twitter (sample_env [] not_found)
        \<lparr>media_type = ''image'', media_url = ''https://m.example/i.png''\<rparr> sample_state
       = (Inl TypeError, sample_state)
   \<and> download_image (sample_env [] not_an_image) ''https://m.example/i.png'' sample_state = Inr None
   \<and> post_media_to_twitter (sample_env [] not_an_image)
        \<lparr>media_type = ''image'', media_url = ''https://m.example/i.png''\<rparr> sample_state
       = (Inl TypeError, sample_state)
   \<and> create_tweet_from_toot (sample_env [] not_found) (image_toot 101 ''a https://x.y/z'') False
        sample_state
       = (Inl TypeError, sample_state)"
  by code_simp
section \<open>Truncation and assembly\<close>

lemma nonspace_run_nonempty: "nonspace_run p r = Some (m, r') \<Longrightarrow> m \<noteq> []"
  by (auto simp: nonspace_run_def split: if_splits)

lemma url_match_nonempty: "url_match s = Some (m, r) \<Longrightarrow> m \<noteq> []"
  by (auto simp: url_match_def url_tail_def split: option.splits dest: nonspace_run_nonempty)

lemma re_search_url_nonempty: "re_search_url s = Some u \<Longrightarrow> u \<noteq> []"
  by (induction s) (auto split: option.splits dest: url_match_nonempty)

lemma re_sub_url_length: "length (re_sub_url s) \<le> length s"
proof (induction s rule: re_sub_url.induct)
  case 1
  then show ?case by simp
next
  case (2 c cs)
  show ?case
  proof (cases "url_match (c # cs)")
    case None
    with 2 show ?thesis by simp
  next
    case (Some mr)
    obtain m r where mr: "mr = (m, r)" by (cases mr)
    with Some 2 have "length (re_sub_url r) \<le> length r" by simp
    moreover from Some mr have "length r < length (c # cs)" by (auto dest: url_match_length)
    ultimately show ?thesis using Some mr by simp
  qed
qed

lemma url_match_other: "c \<noteq> CHR ''h'' \<Longrightarrow> url_match (c # cs) = None"
  by (simp add: url_match_def)

lemma re_search_url_skip:
  "c \<noteq> CHR ''h'' \<Longrightarrow> re_search_url (replicate n c @ s) = re_search_url s"
  by (induction n) (simp_all add: url_match_other)

lemma re_sub_url_skip:
  "c \<noteq> CHR ''h'' \<Longrightarrow> re_sub_url (replicate n c @ s) = replicate n c @ re_sub_url s"
  by (induction n) (simp_all add: url_match_other)

text \<open>
  Claim C3, as amended. For a rendered text with a URL the budget is 230; the body is the
  text with every URL removed; the result is the body, a space, the first URL, a space
  and the permalink. A body of more than 230 characters is cut to its first 230
  characters and gets three periods; when the whole text has at most 230 characters the
  body is left as it is.
\<close>

theorem assemble_text_with_url:
  assumes "re_search_url toot_text = Some u"
  shows "\<exists>body. assemble_text toot_text permalink = Inr (body @ '' '' @ u @ '' '' @ permalink)
           \<and> (230 < length (re_sub_url toot_text) \<longrightarrow>
                body = take 230 (re_sub_url toot_text) @ ''...'')
           \<and> (length toot_text \<le> 230 \<longrightarrow> body = re_sub_url toot_text)"
proof -
  from assms have u: "u \<noteq> []" by (rule re_search_url_nonempty)
  have le: "length (re_sub_url toot_text) \<le> length toot_text" by (rule re_sub_url_length)
  let ?body = "if 230 < length toot_text then take 230 (re_sub_url toot_text) @ ''...''
               else re_sub_url toot_text"
  from assms u have "assemble_text toot_text permalink = Inr (?body @ '' '' @ u @ '' '' @ permalink)"
    by (simp add: assemble_text_def Let_def)
  moreover from le have "230 < length (re_sub_url toot_text) \<longrightarrow>
      ?body = take 230 (re_sub_url toot_text) @ ''...''" by simp
  moreover have "length toot_text \<le> 230 \<longrightarrow> ?body = re_sub_url toot_text" by simp
  ultimately show ?thesis by blast
qed

text \<open>
  The example of the specification: 300 plain characters and one URL give 230 characters
  of the body, the periods, the URL and the permalink.
\<close>

theorem assemble_text_with_url_witness:
  "re_search_url (replicate 300 CHR ''a'' @ '' https://x.y/z'') = Some ''https://x.y/z''
   \<and> assemble_text (replicate 300 CHR ''a'' @ '' https://x.y/z'') ''https://m.example/p''
       = Inr (replicate 230 CHR ''a'' @ ''...'' @ '' '' @ ''https://x.y/z'' @ '' ''
              @ ''https://m.example/p'')"
proof -
  let ?t = "replicate 300 CHR ''a'' @ '' https://x.y/z''"
  have a: "re_search_url '' https://x.y/z'' = Some ''https://x.y/z''" by code_simp
  have b: "re_sub_url '' https://x.y/z'' = '' ''" by code_simp
  from a have h: "re_search_url ?t = Some ''https://x.y/z''"
    by (simp add: re_search_url_skip)
  from b have r: "re_sub_url ?t = replicate 300 CHR ''a'' @ '' ''"
    by (simp add: re_sub_url_skip)
  from assemble_text_with_url [OF h, of "''https://m.example/p''"] r h
  show ?thesis by auto
qed

text \<open>
  Claim C3 as stated fails on a text with two URLs: the code removes both from the body,
  the rule of the claim removes the first only.
\<close>

theorem assemble_text_counterexample:
  "assemble_text ''a http://b http://c'' ''p'' = Inr ''a   http://b p''
   \<and> spec_assemble_text ''a http://b http://c'' ''p'' = Some ''a  http://c http://b p''
   \<and> ''a   http://b p'' \<noteq> ''a  http://c http://b p''"
  by code_simp

text \<open>
  The test of the source compares the length of the whole text, the URL included, with
  the budget: a body within the budget gets the periods when the text with the URL is
  longer than the budget.
\<close>

lemma assemble_text_short_body_long_text:
  assumes "re_search_url toot_text = Some u"
    and "length (re_sub_url toot_text) \<le> 230" and "230 < length toot_text"
  shows "assemble_text toot_text permalink
           = Inr (re_sub_url toot_text @ ''...'' @ '' '' @ u @ '' '' @ permalink)"
proof -
  from assms(1) have "u \<noteq> []" by (rule re_search_url_nonempty)
  with assms show ?thesis by (simp add: assemble_text_def Let_def)
qed
section \<open>The escaping of the text transformer\<close>

lemma replace_char_append:
  "replace_char old new (a @ b) = replace_char old new a @ replace_char old new b"
  by (induction a) simp_all

lemma escape_html_append: "escape_html (a @ b) = escape_html a @ escape_html b"
  by (simp add: escape_html_def escapeable_def replace_char_append)

lemma escape_html_single: "escape_html [c] = escape_char c"
  by (simp add: escape_html_def escapeable_def escape_char_def)

lemma escape_html_Nil: "escape_html [] = []"
  by (simp add: escape_html_def escapeable_def)

lemma escape_html_Cons: "escape_html (c # s) = escape_char c @ escape_html s"
  using escape_html_append [of "[c]" s] by (simp add: escape_html_single)

lemma escape_html_concat: "escape_html s = concat (map escape_char s)"
  by (induction s) (simp_all add: escape_html_Nil escape_html_Cons)

text \<open>
  A character is either kept, or replaced by a placeholder, which starts with \<^verbatim>\<open><\<close> or
  \<^verbatim>\<open>&\<close>.
\<close>

lemma escape_char_cases:
  "escape_char c = [c] \<and> map_of escapeable c = None
   \<or> (\<exists>a w. escape_char c = a # w \<and> (a = CHR ''<'' \<or> a = CHR ''&'')
              \<and> map_of escapeable c = Some (a # w))"
  by (simp add: escape_char_def escapeable_def)

lemma escape_html_head:
  assumes "escape_html s = x # r" and "x \<noteq> CHR ''<''" and "x \<noteq> CHR ''&''"
  shows "\<exists>s'. s = x # s' \<and> r = escape_html s'"
proof (cases s)
  case Nil
  with assms show ?thesis by (simp add: escape_html_Nil)
next
  case (Cons c s')
  with assms have e: "escape_char c @ escape_html s' = x # r" by (simp add: escape_html_Cons)
  from escape_char_cases [of c] show ?thesis
  proof
    assume "escape_char c = [c] \<and> map_of escapeable c = None"
    with e Cons show ?thesis by simp
  next
    assume "\<exists>a w. escape_char c = a # w \<and> (a = CHR ''<'' \<or> a = CHR ''&'')
              \<and> map_of escapeable c = Some (a # w)"
    with e assms(2,3) show ?thesis by auto
  qed
qed

lemma escape_html_prefix:
  assumes "\<forall>x \<in> set w. x \<noteq> CHR ''<'' \<and> x \<noteq> CHR ''&''" and "escape_html s = w @ r"
  shows "\<exists>s'. s = w @ s' \<and> r = escape_html s'"
  using assms
proof (induction w arbitrary: s)
  case Nil
  then show ?case by simp
next
  case (Cons x w)
  from Cons.prems have "escape_html s = x # (w @ r)" "x \<noteq> CHR ''<''" "x \<noteq> CHR ''&''"
    by simp_all
  from escape_html_head [OF this] obtain s1 where s1: "s = x # s1" "w @ r = escape_html s1"
    by blast
  from Cons.prems(1) have "\<forall>x \<in> set w. x \<noteq> CHR ''<'' \<and> x \<noteq> CHR ''&''" by simp
  from Cons.IH [OF this s1(2) [symmetric]] obtain s' where "s1 = w @ s'" "r = escape_html s'"
    by blast
  with s1 show ?case by simp
qed

lemma starts_with_append: "starts_with p (p @ s)"
  by (induction p) simp_all

lemma str_in_prefix: "str_in p (p @ s)"
proof (cases "p @ s")
  case Nil
  then show ?thesis by simp
next
  case (Cons c cs)
  with starts_with_append [of p s] show ?thesis by simp
qed

lemma placeholder_free_no_prefix:
  assumes "placeholder_free (tok @ s)" and "map_of escapeable c = Some tok"
  shows False
proof -
  from assms(2) have "(c, tok) \<in> set escapeable" by (rule map_of_SomeD)
  with assms(1) have "\<not> str_in tok (tok @ s)"
    by (auto simp: placeholder_free_def list_all_iff)
  then show False by (simp add: str_in_prefix)
qed

lemma placeholder_free_tail: "placeholder_free (c # s) \<Longrightarrow> placeholder_free s"
  by (auto simp: placeholder_free_def list_all_iff)

text \<open>Two different characters never give escaped texts of which one starts the other.\<close>

lemma placeholder_tails:
  "map_of escapeable c = Some (a # w) \<Longrightarrow> \<forall>x \<in> set w. x \<noteq> CHR ''<'' \<and> x \<noteq> CHR ''&''"
  by (auto simp: escapeable_def split: if_splits)

lemma placeholders_differ:
  assumes "map_of escapeable c = Some p" and "map_of escapeable d = Some q" and "c \<noteq> d"
  shows "p @ x \<noteq> q @ y"
  using assms by (auto simp: escapeable_def split: if_splits)

lemma escape_html_not_placeholder:
  assumes "placeholder_free (d # t)" and "map_of escapeable c = Some tok" and "d \<noteq> c"
  shows "escape_html (d # t) \<noteq> tok @ r"
proof
  assume eq: "escape_html (d # t) = tok @ r"
  from escape_char_cases [of d] show False
  proof
    assume k: "escape_char d = [d] \<and> map_of escapeable d = None"
    from escape_char_cases [of c] assms(2) obtain a w where tok: "tok = a # w"
      by auto
    with assms(2) have w: "\<forall>x \<in> set w. x \<noteq> CHR ''<'' \<and> x \<noteq> CHR ''&''"
      by (auto dest: placeholder_tails)
    from eq k tok have "d = a" "escape_html t = w @ r" by (simp_all add: escape_html_Cons)
    from escape_html_prefix [OF w this(2)] obtain t' where "t = w @ t'" by blast
    with \<open>d = a\<close> tok have "d # t = tok @ t'" by simp
    with assms(1,2) show False by (auto dest: placeholder_free_no_prefix)
  next
    assume "\<exists>a w. escape_char d = a # w \<and> (a = CHR ''<'' \<or> a = CHR ''&'')
              \<and> map_of escapeable d = Some (a # w)"
    then obtain q where q: "escape_char d = q" "map_of escapeable d = Some q" by auto
    from assms(3) have "c \<noteq> d" by simp
    from placeholders_differ [OF assms(2) q(2) this, of r "escape_html t"] eq q(1) show False
      by (simp add: escape_html_Cons)
  qed
qed

lemma escape_html_injective:
  assumes "placeholder_free s" and "placeholder_free t" and "escape_html s = escape_html t"
  shows "s = t"
  using assms
proof (induction s arbitrary: t)
  case Nil
  show ?case
  proof (cases t)
    case Nil
    then show ?thesis by simp
  next
    case (Cons d t')
    from escape_char_cases [of d] have "escape_char d \<noteq> []" by auto
    with Nil.prems Cons show ?thesis by (simp add: escape_html_Nil escape_html_Cons)
  qed
next
  case (Cons c s)
  show ?case
  proof (cases t)
    case Nil
    from escape_char_cases [of c] have "escape_char c \<noteq> []" by auto
    with Cons.prems Nil show ?thesis by (simp add: escape_html_Nil escape_html_Cons)
  next
    case t: (Cons d t')
    show ?thesis
    proof (cases "c = d")
      case True
      with Cons.prems t have "escape_html s = escape_html t'" by (simp add: escape_html_Cons)
      moreover from Cons.prems t have "placeholder_free s" "placeholder_free t'"
        by (auto dest: placeholder_free_tail)
      ultimately have "s = t'" by (rule Cons.IH [rotated 2])
      with True t show ?thesis by simp
    next
      case False
      from escape_char_cases [of c] show ?thesis
      proof
        assume kc: "escape_char c = [c] \<and> map_of escapeable c = None"
        from escape_char_cases [of d] show ?thesis
        proof
          assume "escape_char d = [d] \<and> map_of escapeable d = None"
          with kc Cons.prems(3) t False show ?thesis by (simp add: escape_html_Cons)
        next
          assume "\<exists>a w. escape_char d = a # w \<and> (a = CHR ''<'' \<or> a = CHR ''&'')
              \<and> map_of escapeable d = Some (a # w)"
          then obtain q where q: "escape_char d = q" "map_of escapeable d = Some q" by auto
          from Cons.prems(3) t q(1) have "escape_html (c # s) = q @ escape_html t'"
            by (simp add: escape_html_Cons)
          with escape_html_not_placeholder [OF Cons.prems(1) q(2) False, of "escape_html t'"]
          show ?thesis by blast
        qed
      next
        assume "\<exists>a w. escape_char c = a # w \<and> (a = CHR ''<'' \<or> a = CHR ''&'')
              \<and> map_of escapeable c = Some (a # w)"
        then obtain p where p: "escape_char c = p" "map_of escapeable c = Some p" by auto
        from Cons.prems(3) t p(1) have e: "escape_html (d # t') = p @ escape_html s"
          by (simp add: escape_html_Cons)
        from False have dc: "d \<noteq> c" by simp
        from Cons.prems(2) t have pf: "placeholder_free (d # t')" by simp
        from escape_html_not_placeholder [OF pf p(2) dc, of "escape_html s"] e
        show ?thesis by blast
      qed
    qed
  qed
qed

text \<open>
  Claim C10, as amended. The escaping replaces each line break, space, backslash, plus,
  hyphen and period by its placeholder and keeps every other character; two different
  texts in which no placeholder occurs have different escaped texts, so the escaping of
  such a text can be undone exactly.
\<close>

theorem escape_html_exact_without_placeholders:
  "escape_html s = concat (map escape_char s)
   \<and> (placeholder_free s \<and> placeholder_free t \<and> s \<noteq> t \<longrightarrow> escape_html s \<noteq> escape_html t)"
  using escape_html_injective [of s t] by (auto simp: escape_html_concat)

theorem escape_html_exact_without_placeholders_witness:
  "placeholder_free ''a b'' \<and> placeholder_free ''a.b'' \<and> ''a b'' \<noteq> ''a.b''
   \<and> escape_html ''a b'' = concat (map escape_char ''a b'')
   \<and> escape_html ''a b'' \<noteq> escape_html ''a.b''"
proof -
  have h: "placeholder_free ''a b''" "placeholder_free ''a.b''" "''a b'' \<noteq> ''a.b''"
    by code_simp+
  with escape_html_exact_without_placeholders [of "''a b''" "''a.b''"] show ?thesis
    by blast
qed

text \<open>
  Claim C10 as stated fails on a text that holds a placeholder: it is escaped to the same
  text as the one that holds the character of the placeholder in its place, so no
  conversion can give both back.
\<close>

theorem escape_html_collision:
  "escape_html ''a&nbsp;b'' = escape_html ''a b'' \<and> ''a&nbsp;b'' \<noteq> ''a b''
   \<and> escape_html ''<br>'' = escape_html [CHR 0x0A] \<and> ''<br>'' \<noteq> [CHR 0x0A]"
  by code_simp

end
